theory Spec2Isabelle
  imports Main "HOL-Library.Word" "HOL-Library.List_Lexorder"
begin

section \<open>JavaScript values of server.js\<close>

text \<open>
  A JavaScript string is a sequence of UTF-16 code units. String literals of the source are
  written with \<open>js\<close>, which reads an ASCII literal as its code units.
\<close>

type_synonym jsstring = "16 word list"
type_synonym bytes = "8 word list"

definition js :: "string \<Rightarrow> jsstring" where
  "js s = map (\<lambda>c. of_nat (of_char c)) s"

text \<open>
  A value of \<open>req.query\<close>: a string, an array of strings when the parameter is repeated
  (the data model of the specification: "string (or array of strings) value"), or a plain
  object, which the extended query parser builds for \<open>?k[a]=b\<close>. \<open>QObj\<close> stands for such an
  object that has no own property named \<open>toString\<close>, \<open>valueOf\<close> or \<open>length\<close>, such as
  \<open>{a: 'b'}\<close>: server.js reads no property of it, and these three are the ones that the
  coercion to a string and \<open>Buffer.from\<close> look at. The query
  object itself is the list of its own properties in insertion order; a JavaScript object
  has each key once, which the theorems that depend on it state as
  \<open>distinct (map fst q)\<close>. A missing property reads as \<open>undefined\<close>, here \<open>None\<close>.
\<close>

datatype qvalue = QStr jsstring | QArr "jsstring list" | QObj

type_synonym query = "(jsstring \<times> qvalue) list"

definition getProp :: "query \<Rightarrow> jsstring \<Rightarrow> qvalue option" where
  "getProp q k = map_of q k"

text \<open>Truthiness (\<open>!v\<close> is its negation): \<open>undefined\<close> and the empty string are falsy,
  every array and every object is truthy.\<close>

fun truthy :: "qvalue option \<Rightarrow> bool" where
  "truthy None = False"
| "truthy (Some (QStr s)) = (s \<noteq> [])"
| "truthy (Some (QArr xs)) = True"
| "truthy (Some QObj) = True"

text \<open>\<open>Array.prototype.join\<close> and the string a value is coerced to (\<open>String(v)\<close>; an
  array coerces to its elements joined with a comma, a plain object to
  \<open>[object Object]\<close>).\<close>

fun join :: "jsstring \<Rightarrow> jsstring list \<Rightarrow> jsstring" where
  "join sep [] = []"
| "join sep [x] = x"
| "join sep (x # y # ys) = x @ sep @ join sep (y # ys)"

fun toString :: "qvalue option \<Rightarrow> jsstring" where
  "toString None = js ''undefined''"
| "toString (Some (QStr s)) = s"
| "toString (Some (QArr xs)) = join (js '','') xs"
| "toString (Some QObj) = js ''[object Object]''"

datatype js_error = URIError | RangeError | TypeError

section \<open>isValidShop\<close>

text \<open>
  \<^verbatim>\<open>/^[a-zA-Z0-9][a-zA-Z0-9\-]*\.myshopify\.com$/.test(shop)\<close>

  The regular expression is kept as data and run by a matcher on derivatives. The pattern
  is anchored at both ends and has no flags, so \<open>test\<close> succeeds exactly when the whole
  string matches (\<open>$\<close> without the \<open>m\<close> flag matches at the end of input only).
  \<open>test\<close> coerces its argument to a string.
\<close>

datatype rx =
    Zero
  | Eps
  | Class "(16 word \<times> 16 word) list"
  | Alt rx rx
  | Cat rx rx
  | Star rx

definition inClass :: "(16 word \<times> 16 word) list \<Rightarrow> 16 word \<Rightarrow> bool" where
  "inClass rs c = list_ex (\<lambda>(lo, hi). lo \<le> c \<and> c \<le> hi) rs"

fun nullable :: "rx \<Rightarrow> bool" where
  "nullable Zero = False"
| "nullable Eps = True"
| "nullable (Class rs) = False"
| "nullable (Alt r s) = (nullable r \<or> nullable s)"
| "nullable (Cat r s) = (nullable r \<and> nullable s)"
| "nullable (Star r) = True"

fun deriv :: "16 word \<Rightarrow> rx \<Rightarrow> rx" where
  "deriv c Zero = Zero"
| "deriv c Eps = Zero"
| "deriv c (Class rs) = (if inClass rs c then Eps else Zero)"
| "deriv c (Alt r s) = Alt (deriv c r) (deriv c s)"
| "deriv c (Cat r s) =
     (if nullable r then Alt (Cat (deriv c r) s) (deriv c s) else Cat (deriv c r) s)"
| "deriv c (Star r) = Cat (deriv c r) (Star r)"

fun matches :: "rx \<Rightarrow> jsstring \<Rightarrow> bool" where
  "matches r [] = nullable r"
| "matches r (c # cs) = matches (deriv c r) cs"

definition alnumClass :: "(16 word \<times> 16 word) list" where
  "alnumClass = [(0x61, 0x7A), (0x41, 0x5A), (0x30, 0x39)]"

definition alnumHyphenClass :: "(16 word \<times> 16 word) list" where
  "alnumHyphenClass = [(0x61, 0x7A), (0x41, 0x5A), (0x30, 0x39), (0x2D, 0x2D)]"

definition literal :: "jsstring \<Rightarrow> rx" where
  "literal s = foldr (\<lambda>c r. Cat (Class [(c, c)]) r) s Eps"

definition shopSuffix :: jsstring where
  "shopSuffix = js ''.myshopify.com''"

definition shopRegex :: rx where
  "shopRegex = Cat (Class alnumClass) (Cat (Star (Class alnumHyphenClass)) (literal shopSuffix))"

definition isValidShop :: "qvalue option \<Rightarrow> bool" where
  "isValidShop shop = matches shopRegex (toString shop)"

text \<open>The language of a regular expression, to state what the matcher accepts.\<close>

inductive_set star :: "jsstring set \<Rightarrow> jsstring set" for L :: "jsstring set" where
  star_empty: "[] \<in> star L"
| star_step: "u \<in> L \<Longrightarrow> v \<in> star L \<Longrightarrow> u @ v \<in> star L"

fun lang :: "rx \<Rightarrow> jsstring set" where
  "lang Zero = {}"
| "lang Eps = {[]}"
| "lang (Class rs) = {[c] | c. inClass rs c}"
| "lang (Alt r s) = lang r \<union> lang s"
| "lang (Cat r s) = {u @ v | u v. u \<in> lang r \<and> v \<in> lang s}"
| "lang (Star r) = star (lang r)"

definition isAlnum :: "16 word \<Rightarrow> bool" where
  "isAlnum c \<longleftrightarrow> (0x61 \<le> c \<and> c \<le> 0x7A) \<or> (0x41 \<le> c \<and> c \<le> 0x5A) \<or> (0x30 \<le> c \<and> c \<le> 0x39)"

section \<open>encodeURIComponent and Buffer.from\<close>

definition isHighSurrogate :: "16 word \<Rightarrow> bool" where
  "isHighSurrogate c \<longleftrightarrow> 0xD800 \<le> c \<and> c \<le> 0xDBFF"

definition isLowSurrogate :: "16 word \<Rightarrow> bool" where
  "isLowSurrogate c \<longleftrightarrow> 0xDC00 \<le> c \<and> c \<le> 0xDFFF"

definition codePoint :: "16 word \<Rightarrow> 16 word \<Rightarrow> nat" where
  "codePoint hi lo = (unat hi - 0xD800) * 0x400 + (unat lo - 0xDC00) + 0x10000"

definition utf8 :: "nat \<Rightarrow> bytes" where
  "utf8 cp =
     (if cp < 0x80 then [of_nat cp]
      else if cp < 0x800 then [of_nat (0xC0 + cp div 0x40), of_nat (0x80 + cp mod 0x40)]
      else if cp < 0x10000 then
        [of_nat (0xE0 + cp div 0x1000), of_nat (0x80 + cp div 0x40 mod 0x40),
         of_nat (0x80 + cp mod 0x40)]
      else
        [of_nat (0xF0 + cp div 0x40000), of_nat (0x80 + cp div 0x1000 mod 0x40),
         of_nat (0x80 + cp div 0x40 mod 0x40), of_nat (0x80 + cp mod 0x40)])"

text \<open>The characters \<open>encodeURIComponent\<close> leaves as they are: letters, digits and
  \<^verbatim>\<open>- _ . ! ~ * ' ( )\<close>.\<close>

definition uriUnreserved :: "16 word \<Rightarrow> bool" where
  "uriUnreserved c \<longleftrightarrow>
     (0x41 \<le> c \<and> c \<le> 0x5A) \<or> (0x61 \<le> c \<and> c \<le> 0x7A) \<or> (0x30 \<le> c \<and> c \<le> 0x39) \<or>
     c \<in> set [0x2D, 0x5F, 0x2E, 0x21, 0x7E, 0x2A, 0x27, 0x28, 0x29]"

definition hexDigitUpper :: "nat \<Rightarrow> 16 word" where
  "hexDigitUpper n = (if n < 10 then of_nat (0x30 + n) else of_nat (0x41 + (n - 10)))"

definition hexDigitLower :: "nat \<Rightarrow> 16 word" where
  "hexDigitLower n = (if n < 10 then of_nat (0x30 + n) else of_nat (0x61 + (n - 10)))"

definition percentByte :: "8 word \<Rightarrow> jsstring" where
  "percentByte b = [0x25, hexDigitUpper (unat b div 16), hexDigitUpper (unat b mod 16)]"

definition percentCodePoint :: "nat \<Rightarrow> jsstring" where
  "percentCodePoint cp = concat (map percentByte (utf8 cp))"

definition prepend :: "jsstring \<Rightarrow> js_error + jsstring \<Rightarrow> js_error + jsstring" where
  "prepend p r = (case r of Inl e \<Rightarrow> Inl e | Inr t \<Rightarrow> Inr (p @ t))"

text \<open>\<open>encodeURIComponent\<close> throws a URIError at a surrogate that is not part of a pair.\<close>

fun encodeURIComponent :: "jsstring \<Rightarrow> js_error + jsstring" where
  "encodeURIComponent [] = Inr []"
| "encodeURIComponent [c] =
     (if uriUnreserved c then Inr [c]
      else if isLowSurrogate c \<or> isHighSurrogate c then Inl URIError
      else Inr (percentCodePoint (unat c)))"
| "encodeURIComponent (c # d # ds) =
     (if uriUnreserved c then prepend [c] (encodeURIComponent (d # ds))
      else if isLowSurrogate c then Inl URIError
      else if isHighSurrogate c then
        (if isLowSurrogate d then prepend (percentCodePoint (codePoint c d)) (encodeURIComponent ds)
         else Inl URIError)
      else prepend (percentCodePoint (unat c)) (encodeURIComponent (d # ds)))"

text \<open>\<open>Buffer.from(s, 'utf-8')\<close>: a lone surrogate is written as U+FFFD.\<close>

fun utf8Encode :: "jsstring \<Rightarrow> bytes" where
  "utf8Encode [] = []"
| "utf8Encode [c] =
     (if isLowSurrogate c \<or> isHighSurrogate c then utf8 0xFFFD else utf8 (unat c))"
| "utf8Encode (c # d # ds) =
     (if isHighSurrogate c \<and> isLowSurrogate d then utf8 (codePoint c d) @ utf8Encode ds
      else if isLowSurrogate c \<or> isHighSurrogate c then utf8 0xFFFD @ utf8Encode (d # ds)
      else utf8 (unat c) @ utf8Encode (d # ds))"




text \<open>
  What the Node runtime supplies and this development does not look into:
  \<open>createHmacHex secret message\<close> is
  \<^verbatim>\<open>crypto.createHmac('sha256', secret).update(message, 'utf-8').digest('hex')\<close>, and
  \<open>numberToUint8 x\<close> is the byte an array element \<open>x\<close> is stored as by \<open>Buffer.from\<close>
  (\<open>Number(x) & 255\<close>, a floating-point conversion).
\<close>

record runtime =
  createHmacHex :: "jsstring \<Rightarrow> jsstring \<Rightarrow> jsstring"
  numberToUint8 :: "jsstring \<Rightarrow> 8 word"

text \<open>\<open>Buffer.from(v, 'utf-8')\<close>: the UTF-8 bytes of a string, one byte per element of an
  array; for a plain object it throws a TypeError.\<close>

fun bufferFrom :: "runtime \<Rightarrow> qvalue \<Rightarrow> js_error + bytes" where
  "bufferFrom rt (QStr s) = Inr (utf8Encode s)"
| "bufferFrom rt (QArr xs) = Inr (map (numberToUint8 rt) xs)"
| "bufferFrom rt QObj = Inl TypeError"

text \<open>\<open>crypto.timingSafeEqual\<close> throws a RangeError on buffers of different lengths.\<close>

definition timingSafeEqual :: "bytes \<Rightarrow> bytes \<Rightarrow> js_error + bool" where
  "timingSafeEqual a b = (if length a \<noteq> length b then Inl RangeError else Inr (a = b))"

section \<open>safeCompare, buildHmacMessage, verifyHmac\<close>

definition safeCompare :: "runtime \<Rightarrow> qvalue \<Rightarrow> qvalue \<Rightarrow> js_error + bool" where
  "safeCompare rt a b =
     (case bufferFrom rt a of
        Inl e \<Rightarrow> Inl e
      | Inr bufA \<Rightarrow>
          (case bufferFrom rt b of
             Inl e \<Rightarrow> Inl e
           | Inr bufB \<Rightarrow>
               if length bufA \<noteq> length bufB then Inr False else timingSafeEqual bufA bufB))"

text \<open>\<open>const { hmac: _hmac, signature: _signature, ...rest } = query\<close>\<close>

definition restOf :: "query \<Rightarrow> query" where
  "restOf query = filter (\<lambda>(k, v). k \<noteq> js ''hmac'' \<and> k \<noteq> js ''signature'') query"

text \<open>\<open>Array.prototype.map\<close> with a callback that may throw: the first throw ends it.\<close>

fun mapE :: "('a \<Rightarrow> js_error + 'b) \<Rightarrow> 'a list \<Rightarrow> js_error + 'b list" where
  "mapE f [] = Inr []"
| "mapE f (x # xs) =
     (case f x of
        Inl e \<Rightarrow> Inl e
      | Inr y \<Rightarrow> (case mapE f xs of Inl e \<Rightarrow> Inl e | Inr ys \<Rightarrow> Inr (y # ys)))"

definition encodePair :: "jsstring \<Rightarrow> jsstring \<Rightarrow> js_error + jsstring" where
  "encodePair key val =
     (case encodeURIComponent key of
        Inl e \<Rightarrow> Inl e
      | Inr k \<Rightarrow> (case encodeURIComponent val of Inl e \<Rightarrow> Inl e | Inr v \<Rightarrow> Inr (k @ js ''='' @ v)))"

definition buildHmacMessage :: "query \<Rightarrow> js_error + jsstring" where
  "buildHmacMessage query =
     (let rest = restOf query
      in case mapE (\<lambda>key.
                 let val = (case getProp rest key of
                              Some (QArr xs) \<Rightarrow> Some (QStr (join (js '','') xs))
                            | v \<Rightarrow> v)
                 in encodePair key (toString val))
               (sort (map fst rest)) of
           Inl e \<Rightarrow> Inl e
         | Inr parts \<Rightarrow> Inr (join (js ''&'') parts))"

text \<open>
  The message as the specification words it: drop the two signature fields, join every list
  value with a comma, sort the remaining pairs by key, percent-encode key and value of each
  pair as \<open>key=value\<close>, join with \<open>&\<close>. The specification knows strings and lists only; a
  plain object is taken as the string it coerces to.
\<close>

definition flatten :: "qvalue \<Rightarrow> jsstring" where
  "flatten v =
     (case v of QStr s \<Rightarrow> s | QArr xs \<Rightarrow> join (js '','') xs | QObj \<Rightarrow> js ''[object Object]'')"

definition spec_message :: "query \<Rightarrow> js_error + jsstring" where
  "spec_message params =
     (let remaining = filter (\<lambda>(k, v). k \<notin> {js ''hmac'', js ''signature''}) params;
          flat = map (\<lambda>(k, v). (k, flatten v)) remaining;
          sorted = sort_key fst flat
      in case mapE (\<lambda>(k, s). encodePair k s) sorted of
           Inl e \<Rightarrow> Inl e
         | Inr pairs \<Rightarrow> Inr (join (js ''&'') pairs))"

text \<open>The environment variables read at start-up.\<close>

record config =
  CLIENT_ID :: jsstring
  CLIENT_SECRET :: jsstring
  SCOPES :: jsstring
  REDIRECT_URI :: jsstring
  OFFLINE_TOKEN_EXPIRING :: bool

record authorizeUrl =
  urlInput :: jsstring
  searchParams :: "(jsstring \<times> jsstring) list"

record tokenRequest =
  requestUrl :: jsstring
  requestBody :: "(jsstring \<times> jsstring) list"

text \<open>One entry per \<open>console.log\<close> or \<open>console.error\<close> call, with what it prints.\<close>

datatype log_entry =
    ErrNoHmac query
  | ErrHmacMismatch
  | ErrQueryParams query
  | ErrMessageString jsstring
  | ErrCalculatedHmac jsstring
  | ErrShopifyHmac qvalue
  | LogRedirecting authorizeUrl
  | LogReceivedCallback query
  | ErrInvalidState "qvalue option"
  | ErrTokenExchangeFailed jsstring
  | ErrNoAccessToken
  | LogRule
  | LogShop jsstring
  | LogAccessToken jsstring
  | LogScopes "jsstring option"
  | ErrCallbackHandler

definition verifyHmac :: "runtime \<Rightarrow> config \<Rightarrow> query \<Rightarrow> log_entry list \<times> (js_error + bool)" where
  "verifyHmac rt cfg query =
     (case getProp query (js ''hmac'') of
        None \<Rightarrow> ([ErrNoHmac query], Inr False)
      | Some hmac \<Rightarrow>
          if \<not> truthy (Some hmac) then ([ErrNoHmac query], Inr False)
          else
            (case buildHmacMessage query of
               Inl e \<Rightarrow> ([], Inl e)
             | Inr message \<Rightarrow>
                 let calculated = createHmacHex rt (CLIENT_SECRET cfg) message
                 in (case safeCompare rt (QStr calculated) hmac of
                       Inl e \<Rightarrow> ([], Inl e)
                     | Inr ok \<Rightarrow>
                         if \<not> ok then
                           ([ErrHmacMismatch, ErrQueryParams query, ErrMessageString message,
                             ErrCalculatedHmac calculated, ErrShopifyHmac hmac], Inr False)
                         else ([], Inr True))))"

section \<open>The state store and the two routes\<close>

text \<open>\<open>stateStore\<close> is a \<open>Map\<close> from state to the \<open>Date.now()\<close> of its creation, in
  milliseconds. Its keys are strings, so an array is never a key of it.\<close>

type_synonym stateStore = "jsstring \<rightharpoonup> int"

definition STATE_TTL_MS :: int where
  "STATE_TTL_MS = 10 * 60 * 1000"

text \<open>The body of the \<open>setInterval\<close> callback, which runs every 60 seconds. The values of
  the store are numbers, so its test \<open>typeof createdAt !== 'number'\<close> never holds.\<close>

definition sweep :: "int \<Rightarrow> stateStore \<Rightarrow> stateStore" where
  "sweep now store =
     (\<lambda>state. case store state of
        None \<Rightarrow> None
      | Some createdAt \<Rightarrow> if now - createdAt > STATE_TTL_MS then None else Some createdAt)"

fun storeHas :: "stateStore \<Rightarrow> qvalue option \<Rightarrow> bool" where
  "storeHas store (Some (QStr s)) = (store s \<noteq> None)"
| "storeHas store v = False"

fun storeDelete :: "stateStore \<Rightarrow> qvalue option \<Rightarrow> stateStore" where
  "storeDelete store (Some (QStr s)) = store(s := None)"
| "storeDelete store v = store"

datatype response =
    Status nat string
  | Redirect authorizeUrl
  | SuccessPage jsstring
  | Rejected js_error

definition toHex :: "bytes \<Rightarrow> jsstring" where
  "toHex bs = concat (map (\<lambda>b. [hexDigitLower (unat b div 16), hexDigitLower (unat b mod 16)]) bs)"

text \<open>
  \<open>GET /install\<close>. \<open>randomBytes\<close> is what \<open>crypto.randomBytes(16)\<close> returns and \<open>now\<close> what
  \<open>Date.now()\<close> returns. The redirect target is kept as the string handed to \<open>new URL\<close>
  and the query parameters set on it; parsing and serialising the URL is not modelled.
\<close>

definition install ::
  "config \<Rightarrow> bytes \<Rightarrow> int \<Rightarrow> query \<Rightarrow> stateStore \<Rightarrow> log_entry list \<times> response \<times> stateStore" where
  "install cfg randomBytes now query store =
     (let shop = getProp query (js ''shop'')
      in if \<not> truthy shop \<or> \<not> isValidShop shop then
           ([], Status 400 ''Invalid ?shop parameter'', store)
         else
           let state = toHex randomBytes;
               store' = store(state \<mapsto> now);
               redirectUrl = \<lparr>urlInput = js ''https://'' @ toString shop
                                            @ js ''/admin/oauth/authorize'',
                                searchParams = [(js ''client_id'', CLIENT_ID cfg),
                                                (js ''scope'', SCOPES cfg),
                                                (js ''redirect_uri'', REDIRECT_URI cfg),
                                                (js ''state'', state)]\<rparr>
           in ([LogRedirecting redirectUrl], Redirect redirectUrl, store'))"

text \<open>What \<open>fetch\<close> and the reading of its response come to: a throw inside the \<open>try\<close>
  block, a response that is not ok with its text, or the JSON body's \<open>access_token\<close> and
  \<open>scope\<close> fields.\<close>

datatype fetchResult =
    FetchThrows
  | ResponseNotOk jsstring
  | ResponseJson "jsstring option" "jsstring option"

text \<open>
  \<open>GET /auth/callback\<close>. A throw of \<open>verifyHmac\<close> is outside the \<open>try\<close> block: the handler's
  promise rejects and no response is sent (\<open>Rejected\<close>).
\<close>

definition callback ::
  "runtime \<Rightarrow> config \<Rightarrow> (tokenRequest \<Rightarrow> fetchResult) \<Rightarrow> query \<Rightarrow> stateStore
     \<Rightarrow> log_entry list \<times> response \<times> stateStore" where
  "callback rt cfg fetch query store =
     (let shop = getProp query (js ''shop'');
          code = getProp query (js ''code'');
          state = getProp query (js ''state'');
          received = [LogReceivedCallback query]
      in if \<not> truthy shop \<or> \<not> isValidShop shop then
           (received, Status 400 ''Invalid shop parameter'', store)
         else if \<not> truthy code then
           (received, Status 400 ''Missing code parameter'', store)
         else if \<not> truthy state \<or> \<not> storeHas store state then
           (received @ [ErrInvalidState state], Status 400 ''Invalid or missing state'', store)
         else
           (case verifyHmac rt cfg query of
              (logs, Inl e) \<Rightarrow> (received @ logs, Rejected e, store)
            | (logs, Inr ok) \<Rightarrow>
                if \<not> ok then (received @ logs, Status 400 ''HMAC validation failed'', store)
                else
                  let store' = storeDelete store state;
                      request = \<lparr>requestUrl = js ''https://'' @ toString shop
                                              @ js ''/admin/oauth/access_token'',
                                 requestBody =
                                   [(js ''client_id'', CLIENT_ID cfg),
                                    (js ''client_secret'', CLIENT_SECRET cfg),
                                    (js ''code'', toString code)]
                                   @ (if OFFLINE_TOKEN_EXPIRING cfg then [(js ''expiring'', js ''1'')]
                                      else [])\<rparr>
                  in (case fetch request of
                        FetchThrows \<Rightarrow>
                          (received @ logs @ [ErrCallbackHandler], Status 500 ''Internal error'', store')
                      | ResponseNotOk text \<Rightarrow>
                          (received @ logs @ [ErrTokenExchangeFailed text],
                           Status 500 ''Token exchange failed'', store')
                      | ResponseJson accessToken scopes \<Rightarrow>
                          (case accessToken of
                             None \<Rightarrow>
                               (received @ logs @ [ErrNoAccessToken],
                                Status 500 ''No access_token in response'', store')
                           | Some token \<Rightarrow>
                               if token = [] then
                                 (received @ logs @ [ErrNoAccessToken],
                                  Status 500 ''No access_token in response'', store')
                               else
                                 (received @ logs @
                                    [LogRule, LogShop (toString shop), LogAccessToken token,
                                     LogScopes scopes, LogRule],
                                  SuccessPage (toString shop), store')))))"

text \<open>
  Two names for what the handler's branches decide. \<open>gatesOpen\<close>: the three checks before
  \<open>verifyHmac\<close> (shop, code, state) all let the request through. \<open>consumed\<close>: the response
  is one of those sent after \<open>stateStore.delete(state)\<close>, that is the success page or a 500.
\<close>

definition gatesOpen :: "query \<Rightarrow> stateStore \<Rightarrow> bool" where
  "gatesOpen q store \<longleftrightarrow>
     truthy (getProp q (js ''shop'')) \<and> isValidShop (getProp q (js ''shop'')) \<and>
     truthy (getProp q (js ''code'')) \<and> truthy (getProp q (js ''state'')) \<and>
     storeHas store (getProp q (js ''state''))"

fun consumed :: "response \<Rightarrow> bool" where
  "consumed (Status code body) = (code = 500)"
| "consumed (SuccessPage shop) = True"
| "consumed (Redirect url) = False"
| "consumed (Rejected e) = False"

section \<open>Concrete values for the examples\<close>

text \<open>A runtime whose digest is a stand-in (the lengths of the secret and of the message, in
  hexadecimal): the theorems hold for every runtime, the examples need one to evaluate.\<close>

definition exampleRuntime :: runtime where
  "exampleRuntime =
     \<lparr>createHmacHex = (\<lambda>secret message. toHex [of_nat (length secret), of_nat (length message)]),
      numberToUint8 = (\<lambda>x. 0)\<rparr>"

definition exampleConfig :: config where
  "exampleConfig =
     \<lparr>CLIENT_ID = js ''id'', CLIENT_SECRET = js ''secret'', SCOPES = js ''read_products'',
      REDIRECT_URI = js ''https://example.test/auth/callback'', OFFLINE_TOKEN_EXPIRING = False\<rparr>"

text \<open>A token exchange that succeeds, a callback query whose \<open>hmac\<close> is the digest of its
  message under the example runtime, and a store that holds its state, created at time 0.\<close>

definition exampleFetch :: "tokenRequest \<Rightarrow> fetchResult" where
  "exampleFetch request = ResponseJson (Some (js ''shpat_1'')) (Some (js ''read_products''))"

definition exampleQuery :: query where
  "exampleQuery =
     [(js ''shop'', QStr (js ''a.myshopify.com'')), (js ''code'', QStr (js ''c'')),
      (js ''state'', QStr (js ''s1'')), (js ''hmac'', QStr (js ''0624''))]"

definition exampleStore :: stateStore where
  "exampleStore = [js ''s1'' \<mapsto> 0]"

text \<open>The same request with a shop that fails validation and a \<open>code\<close> that cannot be
  percent-encoded, and with a signature that does not match.\<close>

definition exampleBadShopQuery :: query where
  "exampleBadShopQuery =
     [(js ''shop'', QStr (js ''-abc.myshopify.com'')), (js ''code'', QStr [0xD800]),
      (js ''state'', QStr (js ''s1'')), (js ''hmac'', QStr (js ''0624''))]"

definition exampleForgedQuery :: query where
  "exampleForgedQuery =
     [(js ''shop'', QStr (js ''a.myshopify.com'')), (js ''code'', QStr (js ''c'')),
      (js ''state'', QStr (js ''s1'')), (js ''hmac'', QStr (js ''ffff''))]"


text \<open>An install for one shop, and the callback of another shop carrying the state that
  install issued.\<close>

definition exampleRandomBytes :: bytes where
  "exampleRandomBytes =
     [0x3A, 0x00, 0xF1, 0x5C, 0x09, 0xB7, 0x42, 0xE8, 0x6D, 0x1F, 0xA4, 0x90, 0x27, 0xCB, 0x53, 0xDE]"

definition exampleInstallQuery :: query where
  "exampleInstallQuery = [(js ''shop'', QStr (js ''a.myshopify.com''))]"

definition exampleOtherShopQuery :: query where
  "exampleOtherShopQuery =
     [(js ''shop'', QStr (js ''b.myshopify.com'')), (js ''code'', QStr (js ''c'')),
      (js ''state'', QStr (js ''3a00f15c09b742e86d1fa49027cb53de'')), (js ''hmac'', QStr (js ''0642''))]"

section \<open>The matcher accepts the language of its expression\<close>

lemma nullable_lang: "nullable r \<longleftrightarrow> [] \<in> lang r"
  by (induction r) (auto intro: star.star_empty)

lemma star_Cons:
  "c # w \<in> star L \<longleftrightarrow> (\<exists>u v. w = u @ v \<and> c # u \<in> L \<and> v \<in> star L)"
proof
  assume "c # w \<in> star L"
  then show "\<exists>u v. w = u @ v \<and> c # u \<in> L \<and> v \<in> star L"
  proof (induction "c # w" rule: star.induct)
    case (star_step u v)
    show ?case
    proof (cases u)
      case Nil
      with star_step show ?thesis by simp
    next
      case (Cons a u')
      with star_step have "w = u' @ v" "c # u' \<in> L" by auto
      with star_step show ?thesis by blast
    qed
  qed
next
  assume "\<exists>u v. w = u @ v \<and> c # u \<in> L \<and> v \<in> star L"
  then obtain u v where "w = u @ v" "c # u \<in> L" "v \<in> star L" by blast
  then show "c # w \<in> star L"
    using star.star_step [of "c # u" L v] by simp
qed

lemma Cons_in_Cat:
  "c # w \<in> lang (Cat r s) \<longleftrightarrow>
     ([] \<in> lang r \<and> c # w \<in> lang s) \<or> (\<exists>u v. w = u @ v \<and> c # u \<in> lang r \<and> v \<in> lang s)"
  (is "?lhs \<longleftrightarrow> ?rhs")
proof
  assume ?lhs
  then obtain u v where uv: "c # w = u @ v" "u \<in> lang r" "v \<in> lang s" by auto
  show ?rhs
  proof (cases u)
    case Nil
    with uv show ?thesis by simp
  next
    case (Cons a u')
    with uv have "w = u' @ v" "c # u' \<in> lang r" by auto
    with uv(3) show ?thesis by blast
  qed
next
  assume ?rhs
  then show ?lhs
  proof
    assume "[] \<in> lang r \<and> c # w \<in> lang s"
    then have "[] @ (c # w) \<in> lang (Cat r s)" unfolding lang.simps by blast
    then show ?lhs by simp
  next
    assume "\<exists>u v. w = u @ v \<and> c # u \<in> lang r \<and> v \<in> lang s"
    then obtain u v where "w = u @ v" "c # u \<in> lang r" "v \<in> lang s" by blast
    then have "(c # u) @ v \<in> lang (Cat r s)" and "c # w = (c # u) @ v"
      unfolding lang.simps by (blast, simp)
    then show ?lhs by simp
  qed
qed

lemma lang_deriv: "cs \<in> lang (deriv c r) \<longleftrightarrow> c # cs \<in> lang r"
proof (induction r arbitrary: cs)
  case (Cat r s)
  have "cs \<in> lang (deriv c (Cat r s)) \<longleftrightarrow>
        (\<exists>u v. cs = u @ v \<and> u \<in> lang (deriv c r) \<and> v \<in> lang s) \<or> (nullable r \<and> cs \<in> lang (deriv c s))"
    by auto
  also have "\<dots> \<longleftrightarrow> c # cs \<in> lang (Cat r s)"
    unfolding Cons_in_Cat Cat.IH nullable_lang by blast
  finally show ?case .
next
  case (Star r)
  have "cs \<in> lang (deriv c (Star r)) \<longleftrightarrow>
        (\<exists>u v. cs = u @ v \<and> u \<in> lang (deriv c r) \<and> v \<in> star (lang r))"
    by auto
  also have "\<dots> \<longleftrightarrow> c # cs \<in> lang (Star r)"
    unfolding Star.IH lang.simps star_Cons ..
  finally show ?case .
qed auto

lemma matches_lang: "matches r s \<longleftrightarrow> s \<in> lang r"
  by (induction s arbitrary: r) (simp_all add: nullable_lang lang_deriv)

lemma range_single: "(a::16 word) \<le> c \<and> c \<le> a \<longleftrightarrow> c = a"
  by (rule iffI) (simp_all add: order.antisym)

lemma inClass_single: "inClass [(a, a)] c \<longleftrightarrow> c = a"
  unfolding inClass_def by (simp add: range_single)

lemma literal_Cons: "literal (c # s) = Cat (Class [(c, c)]) (literal s)"
  by (simp add: literal_def)

lemma lang_literal: "lang (literal s) = {s}"
proof (induction s)
  case Nil
  show ?case by (simp add: literal_def)
next
  case (Cons c s)
  show ?case unfolding literal_Cons lang.simps Cons.IH inClass_single by simp
qed

lemma star_Class: "star {[c] | c. P c} = {cs. \<forall>x \<in> set cs. P x}"
proof (rule set_eqI, rule iffI)
  fix w assume "w \<in> star {[c] | c. P c}"
  then show "w \<in> {cs. \<forall>x \<in> set cs. P x}"
    by (induction rule: star.induct) auto
next
  fix w assume "w \<in> {cs. \<forall>x \<in> set cs. P x}"
  then show "w \<in> star {[c] | c. P c}"
  proof (induction w)
    case Nil show ?case by (rule star.star_empty)
  next
    case (Cons a w)
    then have "[a] \<in> {[c] | c. P c}" "w \<in> star {[c] | c. P c}" by auto
    then show ?case using star.star_step [of "[a]" _ w] by simp
  qed
qed

lemma inClass_alnum: "inClass alnumClass c \<longleftrightarrow> isAlnum c"
  unfolding inClass_def alnumClass_def isAlnum_def by simp

lemma inClass_alnumHyphen: "inClass alnumHyphenClass c \<longleftrightarrow> isAlnum c \<or> c = 0x2D"
  unfolding inClass_def alnumHyphenClass_def isAlnum_def
  by (simp add: range_single disj_ac)

lemma lang_CatI: "u \<in> lang r \<Longrightarrow> v \<in> lang s \<Longrightarrow> u @ v \<in> lang (Cat r s)"
proof -
  assume "u \<in> lang r" "v \<in> lang s"
  then have "\<exists>a b. u @ v = a @ b \<and> a \<in> lang r \<and> b \<in> lang s"
    by (intro exI conjI) (rule refl)
  then show ?thesis by simp
qed

lemma lang_shopRegex:
  "s \<in> lang shopRegex \<longleftrightarrow>
     (\<exists>c cs. s = c # cs @ shopSuffix \<and> isAlnum c \<and> (\<forall>x \<in> set cs. isAlnum x \<or> x = 0x2D))"
proof
  assume "s \<in> lang shopRegex"
  then show "\<exists>c cs. s = c # cs @ shopSuffix \<and> isAlnum c \<and> (\<forall>x \<in> set cs. isAlnum x \<or> x = 0x2D)"
  proof -
    assume "s \<in> lang shopRegex"
    then obtain u v where uv: "s = u @ v" "u \<in> lang (Class alnumClass)"
      "v \<in> lang (Cat (Star (Class alnumHyphenClass)) (literal shopSuffix))"
      unfolding shopRegex_def lang.simps(5) by blast
    from uv(3) obtain w t where wt: "v = w @ t" "w \<in> lang (Star (Class alnumHyphenClass))"
      "t \<in> lang (literal shopSuffix)"
      unfolding lang.simps(5) by blast
    from uv(2) obtain c where "u = [c]" "isAlnum c"
      by (auto simp: inClass_alnum)
    moreover from wt(2) have "\<forall>x \<in> set w. isAlnum x \<or> x = 0x2D"
      by (simp add: star_Class inClass_alnumHyphen)
    moreover from wt(3) have "t = shopSuffix"
      by (simp add: lang_literal)
    ultimately show ?thesis using uv(1) wt(1) by simp
  qed
next
  assume "\<exists>c cs. s = c # cs @ shopSuffix \<and> isAlnum c \<and> (\<forall>x \<in> set cs. isAlnum x \<or> x = 0x2D)"
  then obtain c cs where s: "s = c # cs @ shopSuffix" and c: "isAlnum c"
    and cs: "\<forall>x \<in> set cs. isAlnum x \<or> x = 0x2D" by blast
  have 1: "[c] \<in> lang (Class alnumClass)"
    using c by (simp add: inClass_alnum)
  have 2: "cs \<in> lang (Star (Class alnumHyphenClass))"
    using cs by (simp add: star_Class inClass_alnumHyphen)
  have 3: "cs @ shopSuffix \<in> lang (Cat (Star (Class alnumHyphenClass)) (literal shopSuffix))"
    by (rule lang_CatI [OF 2]) (simp add: lang_literal)
  have "[c] @ (cs @ shopSuffix) \<in> lang shopRegex"
    unfolding shopRegex_def by (rule lang_CatI [OF 1 3])
  then show "s \<in> lang shopRegex" using s by simp
qed


lemmas shop_eval =
  isValidShop_def shopRegex_def literal_def shopSuffix_def js_def inClass_def
  alnumClass_def alnumHyphenClass_def

section \<open>Facts about the message and the comparison\<close>

lemma safeCompare_bytes:
  "safeCompare rt a b =
     (case bufferFrom rt a of
        Inl e \<Rightarrow> Inl e
      | Inr bufA \<Rightarrow> (case bufferFrom rt b of Inl e \<Rightarrow> Inl e | Inr bufB \<Rightarrow> Inr (bufA = bufB)))"
  unfolding safeCompare_def timingSafeEqual_def by (auto split: sum.splits)

lemma map_fst_insort_key: "map fst (insort_key fst x xs) = insort (fst x) (map fst xs)"
  by (induction xs) simp_all

lemma map_fst_sort_key: "map fst (sort_key fst xs) = sort (map fst xs)"
  by (induction xs) (simp_all add: map_fst_insort_key)

lemma insort_key_map_val:
  "insort_key fst (fst p, g (snd p)) (map (\<lambda>p. (fst p, g (snd p))) xs) =
   map (\<lambda>p. (fst p, g (snd p))) (insort_key fst p xs)"
  by (induction xs) simp_all

lemma sort_key_map_val:
  "sort_key fst (map (\<lambda>p. (fst p, g (snd p))) xs) = map (\<lambda>p. (fst p, g (snd p))) (sort_key fst xs)"
  by (induction xs) (simp_all add: insort_key_map_val)

lemma mapE_cong: "(\<And>x. x \<in> set xs \<Longrightarrow> f x = g x) \<Longrightarrow> mapE f xs = mapE g xs"
  by (induction xs) (simp_all split: sum.splits)

lemma mapE_map: "mapE f (map h xs) = mapE (\<lambda>x. f (h x)) xs"
  by (induction xs) (simp_all split: sum.splits)

lemma restOf_filter:
  "filter (\<lambda>(k, v). k \<notin> {js ''hmac'', js ''signature''}) q = restOf q"
  unfolding restOf_def by (rule filter_cong) auto

lemma getProp_member:
  "distinct (map fst r) \<Longrightarrow> (k, v) \<in> set r \<Longrightarrow> getProp r k = Some v"
  unfolding getProp_def by simp

lemma value_string:
  "toString (case Some v of Some (QArr xs) \<Rightarrow> Some (QStr (join (js '','') xs)) | w \<Rightarrow> w) = flatten v"
  by (cases v) (simp_all add: flatten_def)

lemma buildHmacMessage_spec:
  assumes "distinct (map fst q)"
  shows "buildHmacMessage q = spec_message q"
proof -
  define r where "r = restOf q"
  define F where "F = (\<lambda>key. let val = (case getProp r key of
                              Some (QArr xs) \<Rightarrow> Some (QStr (join (js '','') xs))
                            | v \<Rightarrow> v)
                 in encodePair key (toString val))"
  have dr: "distinct (map fst r)"
    unfolding r_def restOf_def using assms by (rule distinct_map_filter)
  have pointwise: "F (fst p) = encodePair (fst p) (flatten (snd p))" if "p \<in> set (sort_key fst r)" for p
  proof -
    from that have "(fst p, snd p) \<in> set r" by simp
    then have "getProp r (fst p) = Some (snd p)" by (rule getProp_member [OF dr])
    then show ?thesis unfolding F_def Let_def by (simp only: value_string)
  qed
  have "mapE F (sort (map fst r)) = mapE (\<lambda>p. F (fst p)) (sort_key fst r)"
    by (simp add: map_fst_sort_key [symmetric] mapE_map)
  also have "\<dots> = mapE (\<lambda>p. encodePair (fst p) (flatten (snd p))) (sort_key fst r)"
    by (rule mapE_cong) (rule pointwise)
  also have "\<dots> = mapE (\<lambda>(k, s). encodePair k s) (sort_key fst (map (\<lambda>(k, v). (k, flatten v)) r))"
    by (simp add: sort_key_map_val mapE_map case_prod_unfold)
  finally have "mapE F (sort (map fst r)) =
      mapE (\<lambda>(k, s). encodePair k s) (sort_key fst (map (\<lambda>(k, v). (k, flatten v)) r))" .
  then show ?thesis
    unfolding buildHmacMessage_def spec_message_def restOf_filter Let_def r_def F_def by simp
qed

lemma buildHmacMessage_reorder:
  assumes "distinct (map fst q1)" "distinct (map fst q2)" "set q1 = set q2"
  shows "buildHmacMessage q1 = buildHmacMessage q2"
proof -
  have d1: "distinct (map fst (restOf q1))" and d2: "distinct (map fst (restOf q2))"
    unfolding restOf_def using assms(1,2) by (simp_all add: distinct_map_filter)
  have s: "set (restOf q1) = set (restOf q2)"
    unfolding restOf_def using assms(3) by simp
  have props: "getProp (restOf q1) = getProp (restOf q2)"
    unfolding getProp_def using map_of_inject_set [OF d1 d2] s by simp
  have "set (map fst (restOf q1)) = set (map fst (restOf q2))"
    using s by simp
  then have keys: "sort (map fst (restOf q1)) = sort (map fst (restOf q2))"
    using d1 d2 by (intro sorted_distinct_set_unique) simp_all
  show ?thesis
    unfolding buildHmacMessage_def Let_def props keys ..
qed

lemma getProp_reorder:
  assumes "distinct (map fst q1)" "distinct (map fst q2)" "set q1 = set q2"
  shows "getProp q1 = getProp q2"
  unfolding getProp_def using map_of_inject_set [OF assms(1,2)] assms(3) by simp

lemma verifyHmac_result:
  "snd (verifyHmac rt cfg q) =
     (case getProp q (js ''hmac'') of
        None \<Rightarrow> Inr False
      | Some h \<Rightarrow>
          if \<not> truthy (Some h) then Inr False
          else (case buildHmacMessage q of
                  Inl e \<Rightarrow> Inl e
                | Inr m \<Rightarrow>
                    (case bufferFrom rt h of
                       Inl e \<Rightarrow> Inl e
                     | Inr supplied \<Rightarrow>
                         Inr (utf8Encode (createHmacHex rt (CLIENT_SECRET cfg) m) = supplied))))"
  unfolding verifyHmac_def Let_def safeCompare_bytes
  by (simp split: option.splits sum.splits)

lemmas message_eval =
  js_def restOf_def buildHmacMessage_def getProp_def encodePair_def prepend_def
  uriUnreserved_def isLowSurrogate_def isHighSurrogate_def percentCodePoint_def percentByte_def
  hexDigitUpper_def utf8_def codePoint_def

lemmas utf8_eval = js_def isLowSurrogate_def isHighSurrogate_def utf8_def codePoint_def















lemma verifyHmac_throws:
  "(\<exists>e. snd (verifyHmac rt cfg q) = Inl e) \<longleftrightarrow>
     truthy (getProp q (js ''hmac'')) \<and>
     ((\<exists>e. buildHmacMessage q = Inl e) \<or> getProp q (js ''hmac'') = Some QObj)"
proof (cases "getProp q (js ''hmac'')")
  case None
  then show ?thesis unfolding verifyHmac_result by simp
next
  case (Some h)
  show ?thesis
    unfolding verifyHmac_result Some
    by (cases h; cases "buildHmacMessage q") simp_all
qed

lemma verifyHmac_no_hmac:
  "\<not> truthy (getProp q (js ''hmac'')) \<Longrightarrow> verifyHmac rt cfg q = ([ErrNoHmac q], Inr False)"
  by (cases "getProp q (js ''hmac'')") (simp_all add: verifyHmac_def)

section \<open>Facts about the callback handler\<close>

lemma callback_invalid_shop:
  "\<not> truthy (getProp q (js ''shop'')) \<or> \<not> isValidShop (getProp q (js ''shop'')) \<Longrightarrow>
   callback rt cfg fetch q store = ([LogReceivedCallback q], Status 400 ''Invalid shop parameter'', store)"
  unfolding callback_def Let_def by simp

lemma callback_missing_code:
  "truthy (getProp q (js ''shop'')) \<Longrightarrow> isValidShop (getProp q (js ''shop'')) \<Longrightarrow>
   \<not> truthy (getProp q (js ''code'')) \<Longrightarrow>
   callback rt cfg fetch q store = ([LogReceivedCallback q], Status 400 ''Missing code parameter'', store)"
  unfolding callback_def Let_def by simp

lemma callback_invalid_state:
  "truthy (getProp q (js ''shop'')) \<Longrightarrow> isValidShop (getProp q (js ''shop'')) \<Longrightarrow>
   truthy (getProp q (js ''code'')) \<Longrightarrow>
   \<not> truthy (getProp q (js ''state'')) \<or> \<not> storeHas store (getProp q (js ''state'')) \<Longrightarrow>
   callback rt cfg fetch q store =
     ([LogReceivedCallback q, ErrInvalidState (getProp q (js ''state''))],
      Status 400 ''Invalid or missing state'', store)"
  unfolding callback_def Let_def by simp

lemma callback_hmac_throws:
  "gatesOpen q store \<Longrightarrow> verifyHmac rt cfg q = (logs, Inl e) \<Longrightarrow>
   callback rt cfg fetch q store = (LogReceivedCallback q # logs, Rejected e, store)"
  unfolding callback_def Let_def gatesOpen_def by simp

lemma callback_hmac_fails:
  "gatesOpen q store \<Longrightarrow> verifyHmac rt cfg q = (logs, Inr False) \<Longrightarrow>
   callback rt cfg fetch q store =
     (LogReceivedCallback q # logs, Status 400 ''HMAC validation failed'', store)"
  unfolding callback_def Let_def gatesOpen_def by simp

lemma callback_hmac_ok:
  "gatesOpen q store \<Longrightarrow> verifyHmac rt cfg q = (logs, Inr True) \<Longrightarrow>
   consumed (fst (snd (callback rt cfg fetch q store))) \<and>
   snd (snd (callback rt cfg fetch q store)) = storeDelete store (getProp q (js ''state''))"
  unfolding callback_def Let_def gatesOpen_def
  by (simp split: fetchResult.splits option.splits)

lemma callback_gates_closed:
  "\<not> gatesOpen q store \<Longrightarrow>
   \<exists>logs body. callback rt cfg fetch q store = (logs, Status 400 body, store)"
  unfolding callback_def Let_def gatesOpen_def by auto

lemma callback_store:
  "snd (snd (callback rt cfg fetch q store)) =
     (if gatesOpen q store \<and> snd (verifyHmac rt cfg q) = Inr True
      then storeDelete store (getProp q (js ''state'')) else store)"
proof (cases "gatesOpen q store")
  case False
  with callback_gates_closed [OF False, of rt cfg fetch] show ?thesis by auto
next
  case True
  obtain logs res where v: "verifyHmac rt cfg q = (logs, res)" by (cases "verifyHmac rt cfg q")
  show ?thesis
  proof (cases res)
    case (Inl e)
    with True v callback_hmac_throws [OF True, of rt cfg logs e fetch] show ?thesis by simp
  next
    case (Inr ok)
    show ?thesis
    proof (cases ok)
      case True
      with \<open>gatesOpen q store\<close> v Inr callback_hmac_ok [of q store rt cfg logs fetch] show ?thesis by simp
    next
      case False
      with \<open>gatesOpen q store\<close> v Inr callback_hmac_fails [of q store rt cfg logs fetch] show ?thesis by simp
    qed
  qed
qed

lemma callback_consumed:
  "consumed (fst (snd (callback rt cfg fetch q store))) \<longleftrightarrow>
     gatesOpen q store \<and> snd (verifyHmac rt cfg q) = Inr True"
proof (cases "gatesOpen q store")
  case False
  with callback_gates_closed [OF False, of rt cfg fetch] show ?thesis by auto
next
  case True
  obtain logs res where v: "verifyHmac rt cfg q = (logs, res)" by (cases "verifyHmac rt cfg q")
  show ?thesis
  proof (cases res)
    case (Inl e)
    with True v callback_hmac_throws [OF True, of rt cfg logs e fetch] show ?thesis by simp
  next
    case (Inr ok)
    show ?thesis
    proof (cases ok)
      case True
      with \<open>gatesOpen q store\<close> v Inr callback_hmac_ok [of q store rt cfg logs fetch] show ?thesis by simp
    next
      case False
      with \<open>gatesOpen q store\<close> v Inr callback_hmac_fails [of q store rt cfg logs fetch] show ?thesis by simp
    qed
  qed
qed

lemma storeHas_storeDelete:
  "truthy v \<Longrightarrow> storeHas store v \<Longrightarrow> \<not> storeHas (storeDelete store v) v"
  by (cases "(store, v)" rule: storeHas.cases) simp_all

lemma callback_not_invalid_state:
  assumes "gatesOpen q store"
  shows "fst (snd (callback rt cfg fetch q store)) \<noteq> Status 400 ''Invalid or missing state''"
proof -
  obtain logs res where v: "verifyHmac rt cfg q = (logs, res)" by (cases "verifyHmac rt cfg q")
  show ?thesis
  proof (cases res)
    case (Inl e)
    with v callback_hmac_throws [OF assms, of rt cfg logs e fetch] show ?thesis by simp
  next
    case (Inr ok)
    show ?thesis
    proof (cases ok)
      case True
      with v Inr callback_hmac_ok [OF assms, of rt cfg logs fetch]
      have "consumed (fst (snd (callback rt cfg fetch q store)))" by simp
      then show ?thesis by (cases "fst (snd (callback rt cfg fetch q store))") auto
    next
      case False
      with v Inr callback_hmac_fails [OF assms, of rt cfg logs fetch] show ?thesis by simp
    qed
  qed
qed

lemma length_toHex: "length (toHex bs) = 2 * length bs"
  unfolding toHex_def by (induction bs) simp_all

lemma install_valid_shop:
  "truthy (getProp q (js ''shop'')) \<Longrightarrow> isValidShop (getProp q (js ''shop'')) \<Longrightarrow>
   snd (snd (install cfg randomBytes now q store)) = store(toHex randomBytes \<mapsto> now)"
  unfolding install_def Let_def by simp

lemma sweep_expired: "store s = Some createdAt \<Longrightarrow> now - createdAt > STATE_TTL_MS \<Longrightarrow> sweep now store s = None"
  by (simp add: sweep_def)

lemma sweep_fresh: "store s = Some createdAt \<Longrightarrow> now - createdAt \<le> STATE_TTL_MS \<Longrightarrow> sweep now store s = Some createdAt"
  by (simp add: sweep_def)

section \<open>The examples, evaluated\<close>

lemma example_shop: "isValidShop (Some (QStr (js ''a.myshopify.com'')))"
  by (simp add: shop_eval)

lemma example_props:
  "getProp exampleQuery (js ''shop'') = Some (QStr (js ''a.myshopify.com''))"
  "getProp exampleQuery (js ''code'') = Some (QStr (js ''c''))"
  "getProp exampleQuery (js ''state'') = Some (QStr (js ''s1''))"
  "getProp exampleQuery (js ''hmac'') = Some (QStr (js ''0624''))"
  by (simp_all add: exampleQuery_def getProp_def js_def)

lemma example_message: "buildHmacMessage exampleQuery = Inr (js ''code=c&shop=a.myshopify.com&state=s1'')"
  unfolding exampleQuery_def by (simp add: message_eval)

lemma example_verify: "verifyHmac exampleRuntime exampleConfig exampleQuery = ([], Inr True)"
  unfolding verifyHmac_def example_props example_message
  by (simp add: safeCompare_def timingSafeEqual_def exampleRuntime_def exampleConfig_def
      toHex_def hexDigitLower_def utf8_eval)

lemma example_gates: "gatesOpen exampleQuery exampleStore"
  unfolding gatesOpen_def example_props
  by (simp add: example_shop exampleStore_def) (simp add: js_def)

lemma example_callback:
  "callback exampleRuntime exampleConfig exampleFetch exampleQuery exampleStore =
     ([LogReceivedCallback exampleQuery, LogRule, LogShop (js ''a.myshopify.com''),
       LogAccessToken (js ''shpat_1''), LogScopes (Some (js ''read_products'')), LogRule],
      SuccessPage (js ''a.myshopify.com''), exampleStore(js ''s1'' := None))"
proof -
  have g: "js ''a.myshopify.com'' \<noteq> []" "js ''c'' \<noteq> []" "js ''s1'' \<noteq> []"
    "js ''shpat_1'' \<noteq> []"
    by (simp_all add: js_def)
  have st: "exampleStore (js ''s1'') = Some 0" "storeDelete exampleStore (Some (QStr (js ''s1''))) = exampleStore(js ''s1'' := None)"
    by (simp_all add: exampleStore_def)
  show ?thesis
    unfolding callback_def Let_def example_props example_verify
    by (simp add: g st example_shop exampleFetch_def)
qed

lemma example_bad_shop: "\<not> isValidShop (getProp exampleBadShopQuery (js ''shop''))"
proof -
  have "getProp exampleBadShopQuery (js ''shop'') = Some (QStr (js ''-abc.myshopify.com''))"
    by (simp add: exampleBadShopQuery_def getProp_def)
  then show ?thesis by (simp add: shop_eval)
qed

lemma example_bad_shop_verify: "snd (verifyHmac exampleRuntime exampleConfig exampleBadShopQuery) = Inl URIError"
proof -
  have h: "getProp exampleBadShopQuery (js ''hmac'') = Some (QStr (js ''0624''))"
    by (simp add: exampleBadShopQuery_def getProp_def js_def)
  have m: "buildHmacMessage exampleBadShopQuery = Inl URIError"
    unfolding exampleBadShopQuery_def by (simp add: message_eval)
  show ?thesis unfolding verifyHmac_result h m by (simp add: js_def)
qed

lemma example_forged_verify: "snd (verifyHmac exampleRuntime exampleConfig exampleForgedQuery) = Inr False"
proof -
  have h: "getProp exampleForgedQuery (js ''hmac'') = Some (QStr (js ''ffff''))"
    by (simp add: exampleForgedQuery_def getProp_def js_def)
  have m: "buildHmacMessage exampleForgedQuery = Inr (js ''code=c&shop=a.myshopify.com&state=s1'')"
    unfolding exampleForgedQuery_def by (simp add: message_eval)
  show ?thesis unfolding verifyHmac_result h m
    by (simp add: exampleRuntime_def exampleConfig_def toHex_def hexDigitLower_def utf8_eval)
qed

lemma example_toHex: "toHex exampleRandomBytes = js ''3a00f15c09b742e86d1fa49027cb53de''"
  by (simp add: toHex_def exampleRandomBytes_def hexDigitLower_def js_def)

lemma example_other_props:
  "getProp exampleOtherShopQuery (js ''shop'') = Some (QStr (js ''b.myshopify.com''))"
  "getProp exampleOtherShopQuery (js ''code'') = Some (QStr (js ''c''))"
  "getProp exampleOtherShopQuery (js ''state'') = Some (QStr (js ''3a00f15c09b742e86d1fa49027cb53de''))"
  "getProp exampleOtherShopQuery (js ''hmac'') = Some (QStr (js ''0642''))"
  by (simp_all add: exampleOtherShopQuery_def getProp_def js_def)

lemma example_other_shop: "isValidShop (Some (QStr (js ''b.myshopify.com'')))"
  by (simp add: shop_eval)

lemma example_other_message:
  "buildHmacMessage exampleOtherShopQuery =
     Inr (js ''code=c&shop=b.myshopify.com&state=3a00f15c09b742e86d1fa49027cb53de'')"
  unfolding exampleOtherShopQuery_def by (simp add: message_eval)

lemma example_other_verify:
  "snd (verifyHmac exampleRuntime exampleConfig exampleOtherShopQuery) = Inr True"
  unfolding verifyHmac_result example_other_props example_other_message
  by (simp add: exampleRuntime_def exampleConfig_def toHex_def hexDigitLower_def utf8_eval)

section \<open>Claims about isValidShop\<close>

text \<open>
  C7. \<open>isValidShop\<close> returns true exactly for the strings that start with an alphanumeric
  character, go on with any number of alphanumeric characters or hyphens, and end with the
  literal suffix \<open>.myshopify.com\<close>. It accepts \<open>abc-1.myshopify.com\<close> and rejects
  \<open>-abc.myshopify.com\<close>, \<open>abc.notshopify.com\<close> and the empty string.
\<close>

theorem isValidShop_characterisation:
  "(isValidShop (Some (QStr s)) \<longleftrightarrow>
      (\<exists>c cs. s = c # cs @ js ''.myshopify.com'' \<and> isAlnum c \<and>
         (\<forall>x \<in> set cs. isAlnum x \<or> x = 0x2D)))
   \<and> isValidShop (Some (QStr (js ''abc-1.myshopify.com'')))
   \<and> \<not> isValidShop (Some (QStr (js ''-abc.myshopify.com'')))
   \<and> \<not> isValidShop (Some (QStr (js ''abc.notshopify.com'')))
   \<and> \<not> isValidShop (Some (QStr []))"
proof (intro conjI)
  show "isValidShop (Some (QStr s)) \<longleftrightarrow>
      (\<exists>c cs. s = c # cs @ js ''.myshopify.com'' \<and> isAlnum c \<and>
         (\<forall>x \<in> set cs. isAlnum x \<or> x = 0x2D))"
    unfolding isValidShop_def toString.simps matches_lang lang_shopRegex shopSuffix_def ..
  show "isValidShop (Some (QStr (js ''abc-1.myshopify.com'')))"
    by (simp add: shop_eval)
  show "\<not> isValidShop (Some (QStr (js ''-abc.myshopify.com'')))"
    by (simp add: shop_eval)
  show "\<not> isValidShop (Some (QStr (js ''abc.notshopify.com'')))"
    by (simp add: shop_eval)
  show "\<not> isValidShop (Some (QStr []))"
    by (simp add: shop_eval)
qed

theorem isValidShop_characterisation_witness:
  "isValidShop (Some (QStr (js ''my-store.myshopify.com'')))
   \<and> js ''my-store.myshopify.com'' = 0x6D # js ''y-store'' @ js ''.myshopify.com''
   \<and> isAlnum 0x6D \<and> list_all (\<lambda>x. isAlnum x \<or> x = 0x2D) (js ''y-store'')"
proof -
  have split: "js ''my-store.myshopify.com'' = 0x6D # js ''y-store'' @ js ''.myshopify.com''"
    by (simp add: js_def)
  have first: "isAlnum 0x6D"
    by (simp add: isAlnum_def)
  have middle: "\<forall>x \<in> set (js ''y-store''). isAlnum x \<or> x = 0x2D"
    by (simp add: js_def isAlnum_def)
  have "isValidShop (Some (QStr (js ''my-store.myshopify.com'')))"
    using isValidShop_characterisation [of "js ''my-store.myshopify.com''"] split first middle
    by blast
  then show ?thesis
    using split first middle by (simp add: list_all_iff)
qed

section \<open>Claims about the signed message and its verification\<close>

text \<open>
  C2. The message signed for HMAC verification is built by removing the \<open>hmac\<close> and
  \<open>signature\<close> fields, replacing each array value by its elements joined with a comma in
  received order, sorting the remaining keys, percent-encoding each key and value and joining
  the \<open>key=value\<close> pairs with \<open>&\<close>: \<open>buildHmacMessage\<close> computes what \<open>spec_message\<close>,
  written from that description, computes. For \<open>{a: ["x","y"], hmac: H}\<close> the message is
  \<open>a=x%2Cy\<close>.
\<close>

theorem buildHmacMessage_follows_spec:
  "(distinct (map fst q) \<longrightarrow> buildHmacMessage q = spec_message q)
   \<and> buildHmacMessage [(js ''a'', QArr [js ''x'', js ''y'']), (js ''hmac'', H)] = Inr (js ''a=x%2Cy'')"
proof
  show "distinct (map fst q) \<longrightarrow> buildHmacMessage q = spec_message q"
    by (simp add: buildHmacMessage_spec)
  show "buildHmacMessage [(js ''a'', QArr [js ''x'', js ''y'']), (js ''hmac'', H)] = Inr (js ''a=x%2Cy'')"
    by (simp add: message_eval)
qed

theorem buildHmacMessage_follows_spec_witness:
  "distinct (map fst [(js ''shop'', QStr (js ''a.myshopify.com'')), (js ''hmac'', QStr (js ''00'')),
      (js ''ids'', QArr [js ''1'', js ''2'']), (js ''code'', QStr (js ''c d''))])
   \<and> spec_message [(js ''shop'', QStr (js ''a.myshopify.com'')), (js ''hmac'', QStr (js ''00'')),
      (js ''ids'', QArr [js ''1'', js ''2'']), (js ''code'', QStr (js ''c d''))]
     = Inr (js ''code=c%20d&ids=1%2C2&shop=a.myshopify.com'')"
proof -
  let ?q = "[(js ''shop'', QStr (js ''a.myshopify.com'')), (js ''hmac'', QStr (js ''00'')),
      (js ''ids'', QArr [js ''1'', js ''2'']), (js ''code'', QStr (js ''c d''))]"
  have d: "distinct (map fst ?q)"
    by (simp add: js_def)
  have "buildHmacMessage ?q = Inr (js ''code=c%20d&ids=1%2C2&shop=a.myshopify.com'')"
    by (simp add: message_eval)
  with d show ?thesis
    using buildHmacMessage_follows_spec [of ?q] by simp
qed

text \<open>
  C6. \<open>safeCompare\<close> returns false whenever the UTF-8 byte lengths of its two strings differ,
  and for equal lengths returns true exactly when the byte sequences are equal. It never
  reaches the throw of \<open>timingSafeEqual\<close>.
\<close>

theorem safeCompare_compares_bytes:
  "(length (utf8Encode a) \<noteq> length (utf8Encode b) \<longrightarrow> safeCompare rt (QStr a) (QStr b) = Inr False)
   \<and> (length (utf8Encode a) = length (utf8Encode b) \<longrightarrow>
        safeCompare rt (QStr a) (QStr b) = Inr (utf8Encode a = utf8Encode b))"
  by (auto simp: safeCompare_bytes)

theorem safeCompare_compares_bytes_witness:
  "safeCompare exampleRuntime (QStr [0xE9]) (QStr (js ''e'')) = Inr False
   \<and> safeCompare exampleRuntime (QStr (js ''abc'')) (QStr (js ''abd'')) = Inr False
   \<and> safeCompare exampleRuntime (QStr (js ''abc'')) (QStr (js ''abc'')) = Inr True"
proof -
  have 1: "length (utf8Encode [0xE9]) \<noteq> length (utf8Encode (js ''e''))"
    by (simp add: utf8_eval)
  have 2: "length (utf8Encode (js ''abc'')) = length (utf8Encode (js ''abd''))"
    by (simp add: utf8_eval)
  have 3: "utf8Encode (js ''abc'') \<noteq> utf8Encode (js ''abd'')"
    by (simp add: utf8_eval)
  show ?thesis
    using safeCompare_compares_bytes [of "[0xE9]" "js ''e''" exampleRuntime]
      safeCompare_compares_bytes [of "js ''abc''" "js ''abd''" exampleRuntime]
      safeCompare_compares_bytes [of "js ''abc''" "js ''abc''" exampleRuntime] 1 2 3
    by simp
qed

text \<open>
  C8. Signature verification does not depend on the order of the parameters: two query
  objects with the same key/value pairs (the same \<open>hmac\<close> among them) in different insertion
  orders give the same message and the same result of \<open>verifyHmac\<close>, for every secret.
\<close>

theorem verifyHmac_order_independent:
  assumes "distinct (map fst q1)" and "distinct (map fst q2)" and "set q1 = set q2"
  shows "snd (verifyHmac rt cfg q1) = snd (verifyHmac rt cfg q2)
         \<and> buildHmacMessage q1 = buildHmacMessage q2"
  unfolding verifyHmac_result buildHmacMessage_reorder [OF assms] getProp_reorder [OF assms]
  by simp

theorem verifyHmac_order_independent_witness:
  "snd (verifyHmac exampleRuntime exampleConfig
     [(js ''shop'', QStr (js ''a.myshopify.com'')), (js ''code'', QStr (js ''c'')), (js ''hmac'', QStr (js ''061b''))])
     = Inr True
   \<and> snd (verifyHmac exampleRuntime exampleConfig
     [(js ''hmac'', QStr (js ''061b'')), (js ''code'', QStr (js ''c'')), (js ''shop'', QStr (js ''a.myshopify.com''))])
     = Inr True"
proof -
  let ?q1 = "[(js ''shop'', QStr (js ''a.myshopify.com'')), (js ''code'', QStr (js ''c'')), (js ''hmac'', QStr (js ''061b''))]"
  let ?q2 = "[(js ''hmac'', QStr (js ''061b'')), (js ''code'', QStr (js ''c'')), (js ''shop'', QStr (js ''a.myshopify.com''))]"
  have d1: "distinct (map fst ?q1)" and d2: "distinct (map fst ?q2)"
    by (simp_all add: js_def)
  have s: "set ?q1 = set ?q2"
    by (simp add: insert_commute)
  have m: "buildHmacMessage ?q1 = Inr (js ''code=c&shop=a.myshopify.com'')"
    by (simp add: message_eval)
  have "snd (verifyHmac exampleRuntime exampleConfig ?q1) = Inr True"
    unfolding verifyHmac_result m by (simp add: getProp_def exampleRuntime_def exampleConfig_def toHex_def hexDigitLower_def utf8_eval)
  then show ?thesis
    using verifyHmac_order_independent [OF d1 d2 s, of exampleRuntime exampleConfig] by simp
qed




text \<open>
  C10. An \<open>hmac\<close> parameter that is present but empty is treated as absent: \<open>verifyHmac\<close>
  returns false through the branch that logs \<open>No hmac in query\<close>, whatever the runtime's
  digest is and whether or not the message could be built.
\<close>

theorem empty_hmac_is_missing:
  "getProp q (js ''hmac'') = Some (QStr []) \<Longrightarrow> verifyHmac rt cfg q = ([ErrNoHmac q], Inr False)"
  by (simp add: verifyHmac_no_hmac)

theorem empty_hmac_is_missing_witness:
  "verifyHmac exampleRuntime exampleConfig [(js ''hmac'', QStr []), (js ''shop'', QStr [0xD800])]
     = ([ErrNoHmac [(js ''hmac'', QStr []), (js ''shop'', QStr [0xD800])]], Inr False)
   \<and> buildHmacMessage [(js ''hmac'', QStr []), (js ''shop'', QStr [0xD800])] = Inl URIError"
proof -
  have "getProp [(js ''hmac'', QStr []), (js ''shop'', QStr [0xD800])] (js ''hmac'') = Some (QStr [])"
    by (simp add: getProp_def)
  then have "verifyHmac exampleRuntime exampleConfig [(js ''hmac'', QStr []), (js ''shop'', QStr [0xD800])]
     = ([ErrNoHmac [(js ''hmac'', QStr []), (js ''shop'', QStr [0xD800])]], Inr False)"
    by (rule empty_hmac_is_missing)
  moreover have "buildHmacMessage [(js ''hmac'', QStr []), (js ''shop'', QStr [0xD800])] = Inl URIError"
    by (simp add: message_eval)
  ultimately show ?thesis by simp
qed


section \<open>Claims about the callback and the state store\<close>

text \<open>
  C5. The gates of the callback short-circuit and leave the store as it is on failure: a
  request that fails shop validation is answered at once, with the same answer for every
  runtime, secret and token exchange (also where \<open>verifyHmac\<close> would throw); when
  \<open>verifyHmac\<close> does not return true the store is unchanged; the store changes only after
  \<open>verifyHmac\<close> returned true, and then by the deletion of the request's state.
\<close>

theorem callback_gates_short_circuit:
  "(\<not> truthy (getProp q (js ''shop'')) \<or> \<not> isValidShop (getProp q (js ''shop'')) \<longrightarrow>
      callback rt cfg fetch q store =
        ([LogReceivedCallback q], Status 400 ''Invalid shop parameter'', store))
   \<and> (snd (verifyHmac rt cfg q) \<noteq> Inr True \<longrightarrow> snd (snd (callback rt cfg fetch q store)) = store)
   \<and> (snd (snd (callback rt cfg fetch q store)) \<noteq> store \<longrightarrow>
        snd (verifyHmac rt cfg q) = Inr True
        \<and> snd (snd (callback rt cfg fetch q store)) = storeDelete store (getProp q (js ''state'')))"
proof (intro conjI impI)
  assume "\<not> truthy (getProp q (js ''shop'')) \<or> \<not> isValidShop (getProp q (js ''shop''))"
  then show "callback rt cfg fetch q store =
        ([LogReceivedCallback q], Status 400 ''Invalid shop parameter'', store)"
    by (rule callback_invalid_shop)
next
  assume "snd (verifyHmac rt cfg q) \<noteq> Inr True"
  then show "snd (snd (callback rt cfg fetch q store)) = store"
    by (simp add: callback_store)
next
  assume changed: "snd (snd (callback rt cfg fetch q store)) \<noteq> store"
  then show "snd (verifyHmac rt cfg q) = Inr True"
    by (simp add: callback_store split: if_splits)
  from changed show "snd (snd (callback rt cfg fetch q store)) = storeDelete store (getProp q (js ''state''))"
    by (simp add: callback_store split: if_splits)
qed

theorem callback_gates_short_circuit_witness:
  "callback exampleRuntime exampleConfig exampleFetch exampleBadShopQuery exampleStore =
     ([LogReceivedCallback exampleBadShopQuery], Status 400 ''Invalid shop parameter'', exampleStore)
   \<and> snd (verifyHmac exampleRuntime exampleConfig exampleBadShopQuery) = Inl URIError
   \<and> snd (verifyHmac exampleRuntime exampleConfig exampleForgedQuery) = Inr False
   \<and> snd (snd (callback exampleRuntime exampleConfig exampleFetch exampleForgedQuery exampleStore)) = exampleStore
   \<and> snd (snd (callback exampleRuntime exampleConfig exampleFetch exampleQuery exampleStore)) \<noteq> exampleStore
   \<and> snd (verifyHmac exampleRuntime exampleConfig exampleQuery) = Inr True"
proof -
  have changed: "snd (snd (callback exampleRuntime exampleConfig exampleFetch exampleQuery exampleStore)) \<noteq> exampleStore"
  proof
    assume "snd (snd (callback exampleRuntime exampleConfig exampleFetch exampleQuery exampleStore)) = exampleStore"
    then have "(exampleStore(js ''s1'' := None)) (js ''s1'') = exampleStore (js ''s1'')"
      by (simp add: example_callback)
    then show False by (simp add: exampleStore_def)
  qed
  show ?thesis
    using callback_gates_short_circuit [of exampleBadShopQuery exampleRuntime exampleConfig exampleFetch exampleStore]
      callback_gates_short_circuit [of exampleForgedQuery exampleRuntime exampleConfig exampleFetch exampleStore]
      callback_gates_short_circuit [of exampleQuery exampleRuntime exampleConfig exampleFetch exampleStore]
      example_bad_shop example_bad_shop_verify example_forged_verify changed
    by simp
qed

text \<open>
  C3. State tokens are single-use: once a callback has consumed a state (it got past
  \<open>stateStore.delete\<close>), the state is not in the resulting store, and every later
  callback that carries the same state value is answered 400 and changes nothing; when its
  shop and code are in order the answer is \<open>Invalid or missing state\<close>.
\<close>

theorem state_single_use:
  assumes "consumed (fst (snd (callback rt cfg fetch q store)))"
    and "getProp q' (js ''state'') = getProp q (js ''state'')"
  shows "\<not> storeHas (snd (snd (callback rt cfg fetch q store))) (getProp q' (js ''state''))
    \<and> (\<exists>logs body. callback rt' cfg' fetch' q' (snd (snd (callback rt cfg fetch q store))) =
          (logs, Status 400 body, snd (snd (callback rt cfg fetch q store))))
    \<and> (truthy (getProp q' (js ''shop'')) \<and> isValidShop (getProp q' (js ''shop''))
          \<and> truthy (getProp q' (js ''code'')) \<longrightarrow>
        callback rt' cfg' fetch' q' (snd (snd (callback rt cfg fetch q store))) =
          ([LogReceivedCallback q', ErrInvalidState (getProp q' (js ''state''))],
           Status 400 ''Invalid or missing state'', snd (snd (callback rt cfg fetch q store))))"
proof -
  define store' where "store' = snd (snd (callback rt cfg fetch q store))"
  from assms(1) have open_ok: "gatesOpen q store" and ok: "snd (verifyHmac rt cfg q) = Inr True"
    by (simp_all add: callback_consumed)
  then have store': "store' = storeDelete store (getProp q (js ''state''))"
    unfolding store'_def by (simp add: callback_store)
  from open_ok have "truthy (getProp q (js ''state''))" "storeHas store (getProp q (js ''state''))"
    by (simp_all add: gatesOpen_def)
  then have gone: "\<not> storeHas store' (getProp q' (js ''state''))"
    unfolding store' assms(2) by (rule storeHas_storeDelete)
  then have closed: "\<not> gatesOpen q' store'"
    by (simp add: gatesOpen_def)
  have second: "\<exists>logs body. callback rt' cfg' fetch' q' store' = (logs, Status 400 body, store')"
    using closed by (rule callback_gates_closed)
  have third: "callback rt' cfg' fetch' q' store' =
          ([LogReceivedCallback q', ErrInvalidState (getProp q' (js ''state''))],
           Status 400 ''Invalid or missing state'', store')"
    if "truthy (getProp q' (js ''shop'')) \<and> isValidShop (getProp q' (js ''shop''))
          \<and> truthy (getProp q' (js ''code''))"
    using that gone by (intro callback_invalid_state) simp_all
  show ?thesis
    using gone second third unfolding store'_def by blast
qed

theorem state_single_use_witness:
  "fst (snd (callback exampleRuntime exampleConfig exampleFetch exampleQuery exampleStore))
     = SuccessPage (js ''a.myshopify.com'')
   \<and> callback exampleRuntime exampleConfig exampleFetch exampleQuery (exampleStore(js ''s1'' := None)) =
       ([LogReceivedCallback exampleQuery, ErrInvalidState (Some (QStr (js ''s1'')))],
        Status 400 ''Invalid or missing state'', exampleStore(js ''s1'' := None))"
proof -
  have first: "fst (snd (callback exampleRuntime exampleConfig exampleFetch exampleQuery exampleStore))
     = SuccessPage (js ''a.myshopify.com'')"
    and after: "snd (snd (callback exampleRuntime exampleConfig exampleFetch exampleQuery exampleStore))
     = exampleStore(js ''s1'' := None)"
    by (simp_all add: example_callback)
  have c: "consumed (fst (snd (callback exampleRuntime exampleConfig exampleFetch exampleQuery exampleStore)))"
    unfolding first by simp
  have g: "truthy (getProp exampleQuery (js ''shop''))" "isValidShop (getProp exampleQuery (js ''shop''))"
    "truthy (getProp exampleQuery (js ''code''))"
    using example_gates by (simp_all add: gatesOpen_def)
  show ?thesis
    using state_single_use [OF c refl, of exampleRuntime exampleConfig exampleFetch] g first
    unfolding after example_props by simp
qed

text \<open>
  C9. State tokens are not bound to the shop that started the flow: \<open>/install\<close> for a
  valid shop A stores the token with its creation time and nothing else, and a callback for
  any valid shop B that carries this token passes the state check; when its signature
  verifies, the token is consumed.
\<close>

theorem state_not_bound_to_shop:
  assumes "truthy (getProp qA (js ''shop''))" and "isValidShop (getProp qA (js ''shop''))"
    and "length randomBytes = 16"
    and "truthy (getProp qB (js ''shop''))" and "isValidShop (getProp qB (js ''shop''))"
    and "truthy (getProp qB (js ''code''))"
    and "getProp qB (js ''state'') = Some (QStr (toHex randomBytes))"
  shows "snd (snd (install cfg randomBytes now qA store)) = store(toHex randomBytes \<mapsto> now)
    \<and> storeHas (snd (snd (install cfg randomBytes now qA store))) (getProp qB (js ''state''))
    \<and> fst (snd (callback rt cfg fetch qB (snd (snd (install cfg randomBytes now qA store)))))
          \<noteq> Status 400 ''Invalid or missing state''
    \<and> (snd (verifyHmac rt cfg qB) = Inr True \<longrightarrow>
          consumed (fst (snd (callback rt cfg fetch qB (snd (snd (install cfg randomBytes now qA store)))))))"
proof -
  define store' where "store' = snd (snd (install cfg randomBytes now qA store))"
  have store': "store' = store(toHex randomBytes \<mapsto> now)"
    unfolding store'_def using assms(1,2) by (rule install_valid_shop)
  have "length (toHex randomBytes) = 32"
    using assms(3) by (simp add: length_toHex)
  then have nonempty: "toHex randomBytes \<noteq> []" by auto
  have has: "storeHas store' (getProp qB (js ''state''))"
    unfolding store' assms(7) by simp
  have "gatesOpen qB store'"
    unfolding gatesOpen_def using assms(4,5,6) has nonempty by (simp add: assms(7))
  then have "fst (snd (callback rt cfg fetch qB store')) \<noteq> Status 400 ''Invalid or missing state''"
    and "snd (verifyHmac rt cfg qB) = Inr True \<longrightarrow> consumed (fst (snd (callback rt cfg fetch qB store')))"
    by (simp_all add: callback_not_invalid_state callback_consumed)
  with has store' show ?thesis
    unfolding store'_def by simp
qed

theorem state_not_bound_to_shop_witness:
  "getProp exampleInstallQuery (js ''shop'') = Some (QStr (js ''a.myshopify.com''))
   \<and> getProp exampleOtherShopQuery (js ''shop'') = Some (QStr (js ''b.myshopify.com''))
   \<and> snd (snd (install exampleConfig exampleRandomBytes 1000 exampleInstallQuery exampleStore))
        = exampleStore(js ''3a00f15c09b742e86d1fa49027cb53de'' \<mapsto> 1000)
   \<and> consumed (fst (snd (callback exampleRuntime exampleConfig exampleFetch exampleOtherShopQuery
        (snd (snd (install exampleConfig exampleRandomBytes 1000 exampleInstallQuery exampleStore))))))"
proof -
  have a: "getProp exampleInstallQuery (js ''shop'') = Some (QStr (js ''a.myshopify.com''))"
    by (simp add: exampleInstallQuery_def getProp_def)
  have a1: "truthy (getProp exampleInstallQuery (js ''shop''))"
    unfolding a by (simp add: js_def)
  have a2: "isValidShop (getProp exampleInstallQuery (js ''shop''))"
    unfolding a by (rule example_shop)
  have r: "length exampleRandomBytes = 16"
    by (simp add: exampleRandomBytes_def)
  have b1: "truthy (getProp exampleOtherShopQuery (js ''shop''))"
    and b3: "truthy (getProp exampleOtherShopQuery (js ''code''))"
    unfolding example_other_props by (simp_all add: js_def)
  have b2: "isValidShop (getProp exampleOtherShopQuery (js ''shop''))"
    unfolding example_other_props by (rule example_other_shop)
  have b4: "getProp exampleOtherShopQuery (js ''state'') = Some (QStr (toHex exampleRandomBytes))"
    unfolding example_other_props example_toHex ..
  note t = state_not_bound_to_shop [OF a1 a2 r b1 b2 b3 b4, of exampleConfig 1000 exampleStore
        exampleRuntime exampleFetch]
  from t have i: "snd (snd (install exampleConfig exampleRandomBytes 1000 exampleInstallQuery exampleStore))
        = exampleStore(js ''3a00f15c09b742e86d1fa49027cb53de'' \<mapsto> 1000)"
    unfolding example_toHex by (rule conjunct1)
  from t example_other_verify
  have c: "consumed (fst (snd (callback exampleRuntime exampleConfig exampleFetch exampleOtherShopQuery
        (snd (snd (install exampleConfig exampleRandomBytes 1000 exampleInstallQuery exampleStore))))))"
    by blast
  from a example_other_props(1) i c show ?thesis
    by (intro conjI)
qed

text \<open>
  C1, as claimed: a state whose age exceeds the TTL is refused by the callback even when the
  sweep has not removed it yet. The handler reads no clock: the state created at time 0 is
  still in the store, and at time 630000 (30 seconds after its TTL ran out, before the sweep
  due at 660000) the callback goes through to the success page.
\<close>

theorem expired_state_passes_before_sweep_counterexample:
  "exampleStore (js ''s1'') = Some 0
   \<and> 630000 - 0 > STATE_TTL_MS
   \<and> getProp exampleQuery (js ''state'') = Some (QStr (js ''s1''))
   \<and> fst (snd (callback exampleRuntime exampleConfig exampleFetch exampleQuery exampleStore))
        = SuccessPage (js ''a.myshopify.com'')
   \<and> fst (snd (callback exampleRuntime exampleConfig exampleFetch exampleQuery exampleStore))
        \<noteq> Status 400 ''Invalid or missing state''"
proof (intro conjI)
  show "exampleStore (js ''s1'') = Some 0"
    by (simp add: exampleStore_def)
  show "630000 - 0 > STATE_TTL_MS"
    by (simp add: STATE_TTL_MS_def)
  show "getProp exampleQuery (js ''state'') = Some (QStr (js ''s1''))"
    by (rule example_props)
  show "fst (snd (callback exampleRuntime exampleConfig exampleFetch exampleQuery exampleStore))
        = SuccessPage (js ''a.myshopify.com'')"
    by (simp add: example_callback)
  show "fst (snd (callback exampleRuntime exampleConfig exampleFetch exampleQuery exampleStore))
        \<noteq> Status 400 ''Invalid or missing state''"
    by (simp add: example_callback)
qed

text \<open>
  C1, amended. The state check of the callback tests presence in the store only, so a state
  that is in the store passes it whatever its age. The TTL is enforced by the periodic
  sweep: a sweep at time \<open>now\<close> removes an entry older than \<open>STATE_TTL_MS\<close>, after which the
  callback answers 400 \<open>Invalid or missing state\<close>, and keeps an entry that is not older.
\<close>

theorem expired_state_rejected_after_sweep:
  assumes "truthy (getProp q (js ''shop''))" and "isValidShop (getProp q (js ''shop''))"
    and "truthy (getProp q (js ''code''))"
    and "getProp q (js ''state'') = Some (QStr s)" and "s \<noteq> []"
    and "store s = Some createdAt"
  shows "fst (snd (callback rt cfg fetch q store)) \<noteq> Status 400 ''Invalid or missing state''
    \<and> (now - createdAt > STATE_TTL_MS \<longrightarrow>
         callback rt cfg fetch q (sweep now store) =
           ([LogReceivedCallback q, ErrInvalidState (Some (QStr s))],
            Status 400 ''Invalid or missing state'', sweep now store))
    \<and> (now - createdAt \<le> STATE_TTL_MS \<longrightarrow> sweep now store s = Some createdAt)"
proof (intro conjI impI)
  have "gatesOpen q store"
    unfolding gatesOpen_def using assms by simp
  then show "fst (snd (callback rt cfg fetch q store)) \<noteq> Status 400 ''Invalid or missing state''"
    by (rule callback_not_invalid_state)
next
  assume "now - createdAt > STATE_TTL_MS"
  with assms(6) have "sweep now store s = None" by (rule sweep_expired)
  then have "\<not> storeHas (sweep now store) (getProp q (js ''state''))"
    unfolding assms(4) by simp
  then show "callback rt cfg fetch q (sweep now store) =
           ([LogReceivedCallback q, ErrInvalidState (Some (QStr s))],
            Status 400 ''Invalid or missing state'', sweep now store)"
    using callback_invalid_state [OF assms(1,2,3), of "sweep now store" rt cfg fetch]
    by (simp add: assms(4))
next
  assume "now - createdAt \<le> STATE_TTL_MS"
  with assms(6) show "sweep now store s = Some createdAt" by (rule sweep_fresh)
qed

theorem expired_state_rejected_after_sweep_witness:
  "exampleStore (js ''s1'') = Some 0
   \<and> 660000 - 0 > STATE_TTL_MS
   \<and> callback exampleRuntime exampleConfig exampleFetch exampleQuery (sweep 660000 exampleStore) =
       ([LogReceivedCallback exampleQuery, ErrInvalidState (Some (QStr (js ''s1'')))],
        Status 400 ''Invalid or missing state'', sweep 660000 exampleStore)
   \<and> sweep 600000 exampleStore (js ''s1'') = Some 0"
proof -
  have g: "truthy (getProp exampleQuery (js ''shop''))" "isValidShop (getProp exampleQuery (js ''shop''))"
    "truthy (getProp exampleQuery (js ''code''))"
    using example_gates by (simp_all add: gatesOpen_def)
  have s: "getProp exampleQuery (js ''state'') = Some (QStr (js ''s1''))" "js ''s1'' \<noteq> []"
    by (simp_all add: example_props) (simp add: js_def)
  have e: "exampleStore (js ''s1'') = Some 0"
    by (simp add: exampleStore_def)
  show ?thesis
    using expired_state_rejected_after_sweep [where q = exampleQuery and store = exampleStore
        and s = "js ''s1''" and createdAt = 0 and rt = exampleRuntime and cfg = exampleConfig
        and fetch = exampleFetch and now = 660000, OF g s e]
      expired_state_rejected_after_sweep [where q = exampleQuery and store = exampleStore
        and s = "js ''s1''" and createdAt = 0 and rt = exampleRuntime and cfg = exampleConfig
        and fetch = exampleFetch and now = 600000, OF g s e] e
    by (simp add: STATE_TTL_MS_def)
qed

end
